theory Spec2Isabelle
  imports Main "HOL-Library.Multiset"
begin

section \<open>Data model\<close>

text \<open>
  The lane set of the board, \<^verbatim>\<open>KANBAN_STATUSES\<close> of \<^verbatim>\<open>models/todo.ts\<close> (the client's
  \<^verbatim>\<open>constants\<close> module holds the same list).
\<close>

definition KANBAN_STATUSES :: "string list" where
  "KANBAN_STATUSES = [''pending'', ''in-progress'', ''review'', ''done'']"

definition defaultStatus :: string where
  "defaultStatus = KANBAN_STATUSES ! 0"

text \<open>
  A stored document of the \<^verbatim>\<open>todos\<close> collection (\<^verbatim>\<open>ITodo\<close>). \<^verbatim>\<open>_id\<close> is written
  \<open>todo_id\<close>. Dates are clock readings (\<open>nat\<close>); \<^verbatim>\<open>order\<close> is a JavaScript number, taken
  as an integer here. \<open>isArchived\<close> is no path of the schema, but \<^verbatim>\<open>GET /\<close> filters on it
  and the README lists it among the fields of the collection, so a document may carry it.
\<close>

record todo =
  todo_id :: string
  title :: string
  description :: "string option"
  status :: string
  dueDate :: "nat option"
  createdAt :: nat
  updatedAt :: nat
  parentId :: "string option"
  tags :: "string list"
  order :: int
  isArchived :: "bool option"

text \<open>
  The client's \<^verbatim>\<open>Task\<close>: the JSON of a top-level document with the sub-items that
  \<^verbatim>\<open>GET /\<close> attaches to it.
\<close>

record task = todo +
  subtasks :: "todo list"

text \<open>
  A request body of the create routes. Every field is optional; fields that the schema
  does not declare are dropped by the model and are left out.
\<close>

record body =
  b_id :: "string option"
  b_title :: "string option"
  b_description :: "string option"
  b_status :: "string option"
  b_dueDate :: "nat option"
  b_createdAt :: "nat option"
  b_parentId :: "string option"
  b_tags :: "string list option"
  b_order :: "int option"




text \<open>
  What a handler sends: \<^verbatim>\<open>res.status(code).json({success: true, data})\<close> or
  \<^verbatim>\<open>{success: false, message}\<close>. Code 400 with the message \<^verbatim>\<open>Validation failed\<close> is
  the \<^verbatim>\<open>ValidationError\<close> branch, code 404 is the not-found branch.
\<close>

datatype 'a response =
    Success nat 'a
  | Failure nat string

section \<open>The collection\<close>

text \<open>
  The collection is the list of its documents in insertion order. The operations are the
  ones the routes call on \<^verbatim>\<open>TodoModel\<close>; a query filter is a predicate on documents.
\<close>

type_synonym collection = "todo list"

definition countDocuments :: "(todo \<Rightarrow> bool) \<Rightarrow> collection \<Rightarrow> nat" where
  "countDocuments flt c = length (filter flt c)"

definition findById :: "string \<Rightarrow> collection \<Rightarrow> todo option" where
  "findById i c = find (\<lambda>t. todo_id t = i) c"

definition deleteMany :: "(todo \<Rightarrow> bool) \<Rightarrow> collection \<Rightarrow> nat \<times> collection" where
  "deleteMany flt c = (length (filter flt c), filter (\<lambda>t. \<not> flt t) c)"

fun deleteOne :: "(todo \<Rightarrow> bool) \<Rightarrow> collection \<Rightarrow> collection" where
  "deleteOne flt [] = []"
| "deleteOne flt (t # c) = (if flt t then c else t # deleteOne flt c)"



section \<open>Building and saving a document\<close>

text \<open>
  \<^verbatim>\<open>String.prototype.trim\<close> belongs to the JavaScript runtime: it strips the white space
  and line terminators of Unicode from both ends. It is the parameter \<open>trim\<close> of every
  function below that trims, so that what is proved holds for the runtime's function and
  for every encoding of its strings.
\<close>

text \<open>
  \<^verbatim>\<open>[...new Set(xs)]\<close>: the first occurrence of every element, in order.
\<close>

fun uniq :: "'a list \<Rightarrow> 'a list \<Rightarrow> 'a list" where
  "uniq seen [] = []"
| "uniq seen (x # xs) = (if x \<in> set seen then uniq seen xs else x # uniq (x # seen) xs)"

definition sanitizeTags :: "(string \<Rightarrow> string) \<Rightarrow> string list option \<Rightarrow> string list" where
  "sanitizeTags trim tgs =
     (case tgs of
        None \<Rightarrow> []
      | Some ts \<Rightarrow> uniq [] (filter (\<lambda>tag. tag \<noteq> []) (map trim ts)))"

datatype save_error = ValidationError | DuplicateKey

text \<open>
  \<^verbatim>\<open>new TodoModel(data)\<close> followed by \<^verbatim>\<open>save()\<close>, as the schema \<^verbatim>\<open>todoSchema\<close> fixes
  it: the defaults (\<^verbatim>\<open>_id\<close> a fresh id, \<^verbatim>\<open>createdAt\<close> the clock), the \<^verbatim>\<open>trim\<close>
  setters, the pre-save hook that stamps \<^verbatim>\<open>updatedAt\<close>, the validators (\<^verbatim>\<open>title\<close>
  required, which an empty string fails; \<^verbatim>\<open>status\<close> in the enumeration; \<^verbatim>\<open>parentId\<close>
  other than the document's own id), and the insert, which the unique index on
  \<^verbatim>\<open>_id\<close> refuses for an id already stored. The fresh id and the clock are parameters,
  and so is the function of the \<^verbatim>\<open>trim\<close> setters.
\<close>

definition construct :: "(string \<Rightarrow> string) \<Rightarrow> string \<Rightarrow> nat \<Rightarrow> body \<Rightarrow> todo" where
  "construct trim newId now d =
     \<lparr>todo_id = (case b_id d of Some i \<Rightarrow> i | None \<Rightarrow> newId),
      title = (case b_title d of Some s \<Rightarrow> trim s | None \<Rightarrow> []),
      description = map_option trim (b_description d),
      status = (case b_status d of Some s \<Rightarrow> s | None \<Rightarrow> KANBAN_STATUSES ! 0),
      dueDate = b_dueDate d,
      createdAt = (case b_createdAt d of Some c \<Rightarrow> c | None \<Rightarrow> now),
      updatedAt = now,
      parentId = b_parentId d,
      tags = (case b_tags d of Some ts \<Rightarrow> ts | None \<Rightarrow> []),
      order = (case b_order d of Some n \<Rightarrow> n | None \<Rightarrow> 0),
      isArchived = None\<rparr>"

definition schema_valid :: "body \<Rightarrow> todo \<Rightarrow> bool" where
  "schema_valid d t =
     ((case b_title d of None \<Rightarrow> False | Some s \<Rightarrow> title t \<noteq> [])
      \<and> status t \<in> set KANBAN_STATUSES
      \<and> parentId t \<noteq> Some (todo_id t))"

definition save ::
  "(string \<Rightarrow> string) \<Rightarrow> string \<Rightarrow> nat \<Rightarrow> body \<Rightarrow> collection \<Rightarrow> save_error + (todo \<times> collection)" where
  "save trim newId now d c =
     (let t = construct trim newId now d in
      if \<not> schema_valid d t then Inl ValidationError
      else if todo_id t \<in> set (map todo_id c) then Inl DuplicateKey
      else Inr (t, c @ [t]))"

section \<open>The routes\<close>

text \<open>
  Every handler takes the collection and returns its response with the collection it
  leaves. A failure of the connection to the database is not modelled: the collection
  operations always answer.
\<close>

definition finalStatus :: "string option \<Rightarrow> string" where
  "finalStatus st =
     (case st of
        None \<Rightarrow> defaultStatus
      | Some s \<Rightarrow> if s \<noteq> [] \<and> s \<in> set KANBAN_STATUSES then s else defaultStatus)"

text \<open>\<^verbatim>\<open>POST /\<close>: create a top-level todo.\<close>

definition post_root ::
  "(string \<Rightarrow> string) \<Rightarrow> string \<Rightarrow> nat \<Rightarrow> body \<Rightarrow> collection \<Rightarrow> todo response \<times> collection" where
  "post_root trim newId now reqBody c =
     (let sanitizedTags = sanitizeTags trim (b_tags reqBody);
          currentMaxOrder =
            countDocuments (\<lambda>t. parentId t = None \<and> status t = finalStatus (b_status reqBody)) c;
          todoData = reqBody\<lparr>b_parentId := None, b_tags := Some sanitizedTags,
                       b_status := Some (finalStatus (b_status reqBody)),
                       b_order := Some (int currentMaxOrder)\<rparr>
      in (case save trim newId now todoData c of
           Inr (t, c') \<Rightarrow> (Success 201 t, c')
         | Inl ValidationError \<Rightarrow> (Failure 400 ''Validation failed'', c)
         | Inl DuplicateKey \<Rightarrow> (Failure 500 ''Failed to create todo'', c)))"

text \<open>
  \<^verbatim>\<open>POST /:parentId/subtasks\<close>: create a sub-item. \<^verbatim>\<open>ObjectId.isValid\<close> belongs to the
  database driver and is a parameter.
\<close>

definition post_subtasks ::
  "(string \<Rightarrow> string) \<Rightarrow> (string \<Rightarrow> bool) \<Rightarrow> string \<Rightarrow> nat \<Rightarrow> string \<Rightarrow> body \<Rightarrow> collection
     \<Rightarrow> todo response \<times> collection" where
  "post_subtasks trim isValid newId now parent reqBody c =
     (if \<not> isValid parent then (Failure 400 ''Invalid parent ID format'', c)
      else (case findById parent c of
        None \<Rightarrow> (Failure 404 ''Parent todo not found'', c)
      | Some parentTodo \<Rightarrow>
         (let sanitizedTags = sanitizeTags trim (b_tags reqBody);
              currentMaxOrder = countDocuments (\<lambda>t. parentId t = Some parent) c;
              subtaskData = reqBody\<lparr>b_parentId := Some parent, b_tags := Some sanitizedTags,
                              b_status := Some (finalStatus (b_status reqBody)),
                              b_order := Some (int currentMaxOrder)\<rparr>
          in (case save trim newId now subtaskData c of
               Inr (t, c') \<Rightarrow> (Success 201 t, c')
             | Inl ValidationError \<Rightarrow> (Failure 400 ''Validation failed'', c)
             | Inl DuplicateKey \<Rightarrow> (Failure 500 ''Failed to create subtask'', c)))))"

text \<open>
  \<^verbatim>\<open>DELETE /:id\<close>: delete a todo and its sub-items. The response carries the number of
  sub-items deleted.
\<close>

definition delete_todo :: "string \<Rightarrow> collection \<Rightarrow> nat response \<times> collection" where
  "delete_todo i c =
     (case findById i c of
        None \<Rightarrow> (Failure 404 ''Todo not found'', c)
      | Some t \<Rightarrow>
         (case deleteMany (\<lambda>x. parentId x = Some i) c of
            (deletedCount, c1) \<Rightarrow> (Success 200 deletedCount, deleteOne (\<lambda>x. todo_id x = i) c1)))"




section \<open>The board component\<close>

text \<open>
  The client keeps the tasks it loaded in one state variable, \<^verbatim>\<open>tasks\<close>. The functions
  below take that state and return the next one. One operation is in flight at a time, so
  the state an updater \<^verbatim>\<open>setTasks(f)\<close> is applied to is the state the handler started from.
  React queues the updater and runs it when it renders, after the handler has reached its
  first \<^verbatim>\<open>await\<close>: what the handler reads before that \<^verbatim>\<open>await\<close> from a variable that
  the updater assigns is the variable's initial value.
\<close>

text \<open>\<^verbatim>\<open>Array.prototype.findIndex\<close>; \<open>None\<close> is the result -1.\<close>

fun findIndex :: "('a \<Rightarrow> bool) \<Rightarrow> 'a list \<Rightarrow> nat option" where
  "findIndex P [] = None"
| "findIndex P (x # xs) = (if P x then Some 0 else map_option Suc (findIndex P xs))"

text \<open>
  \<^verbatim>\<open>arrayMove\<close>: the element at \<open>from\<close> is spliced out and spliced back in at \<open>to\<close>
  (\<^verbatim>\<open>splice\<close> clamps the position to the length). With \<open>from\<close> out of range
  JavaScript inserts \<^verbatim>\<open>undefined\<close>, which is no task: the result is \<open>None\<close> then. Both
  indices are results of \<open>findIndex\<close> where the handler calls it, so \<open>to\<close> is never
  negative.
\<close>

definition arrayMove :: "'a list \<Rightarrow> nat \<Rightarrow> nat \<Rightarrow> 'a list option" where
  "arrayMove array from to =
     (if from < length array
      then (let newArray = take from array @ drop (Suc from) array
            in Some (take to newArray @ array ! from # drop to newArray))
      else None)"

text \<open>\<^verbatim>\<open>.map((task, index) => ({ ...task, order: index }))\<close>\<close>

definition assignOrder :: "task list \<Rightarrow> task list" where
  "assignOrder ts = map (\<lambda>(index, tsk). tsk\<lparr>order := int index\<rparr>) (enumerate 0 ts)"

text \<open>
  \<^verbatim>\<open>.sort((a, b) => (a.order ?? 0) - (b.order ?? 0))\<close>: a stable sort by \<^verbatim>\<open>order\<close>.
\<close>

definition sortByOrder :: "task list \<Rightarrow> task list" where
  "sortByOrder ts = sort_key order ts"

subsection \<open>The projection \<^verbatim>\<open>tasksByStatus\<close>\<close>

definition warning :: "task \<Rightarrow> string" where
  "warning t = ''[TodoPluginComponent] Task '' @ todo_id t @ '' has invalid status: '' @ [CHR 0x27]
     @ status t @ [CHR 0x27] @ ''. Mapping to '' @ [CHR 0x27] @ defaultStatus @ [CHR 0x27] @ ''.''"

text \<open>
  The loop over the tasks. The state is the object \<^verbatim>\<open>grouped\<close> and the warnings logged
  so far. \<^verbatim>\<open>grouped[effectiveStatus]!.push(task)\<close> throws when the object has no such
  key: the result is \<open>None\<close> then. After the remapping the flag \<^verbatim>\<open>statusIsValid\<close> is
  true, so the test before the push is the one on \<^verbatim>\<open>isArchived\<close>.
\<close>

fun groupTasks ::
  "task list \<Rightarrow> (string \<rightharpoonup> task list) \<times> string list \<Rightarrow> ((string \<rightharpoonup> task list) \<times> string list) option" where
  "groupTasks [] acc = Some acc"
| "groupTasks (t # ts) (grouped, logged) =
     (let statusIsValid = (status t \<in> set KANBAN_STATUSES);
          isInvalidTodoString = (status t = ''Todo'');
          remap = (\<not> statusIsValid \<or> isInvalidTodoString);
          effectiveStatus = (if remap then defaultStatus else status t);
          logged' = (if remap then logged @ [warning t] else logged)
      in if isArchived t \<noteq> Some True
         then (case grouped effectiveStatus of
                 None \<Rightarrow> None
               | Some column \<Rightarrow> groupTasks ts (grouped(effectiveStatus \<mapsto> column @ [t]), logged'))
         else groupTasks ts (grouped, logged'))"

definition tasksByStatus :: "task list \<Rightarrow> ((string \<rightharpoonup> task list) \<times> string list) option" where
  "tasksByStatus tasks =
     (case groupTasks tasks (map_of (map (\<lambda>s. (s, [])) KANBAN_STATUSES), []) of
        None \<Rightarrow> None
      | Some (grouped, logged) \<Rightarrow> Some (\<lambda>s. map_option sortByOrder (grouped s), logged))"

subsection \<open>The drag handler\<close>

text \<open>
  The calls to the server that the handler issues. \<^verbatim>\<open>handleResponse\<close> throws on every
  answer that is not a success, so a call either succeeds or fails: the server is a
  predicate on calls.
\<close>

datatype api_call =
    PUT_task string string int
  | PATCH_reorder string "(string \<times> int) list"

text \<open>The calls of one \<^verbatim>\<open>try\<close> block, issued in order up to the first that fails.\<close>

fun run_calls :: "(api_call \<Rightarrow> bool) \<Rightarrow> api_call list \<Rightarrow> bool \<times> api_call list" where
  "run_calls api [] = (True, [])"
| "run_calls api (r # rs) =
     (if api r then (case run_calls api rs of (ok, issued) \<Rightarrow> (ok, r # issued))
      else (False, [r]))"

text \<open>
  Reordering within a column: \<open>None\<close> where the handler returns because an index is
  missing.
\<close>

definition reorderedColumnTasks :: "task list \<Rightarrow> string \<Rightarrow> string \<Rightarrow> string \<Rightarrow> task list option" where
  "reorderedColumnTasks originalTasks sourceStatus activeId overId =
     (let columnTasks = sortByOrder (filter (\<lambda>t. status t = sourceStatus) originalTasks)
      in case findIndex (\<lambda>t. todo_id t = activeId) columnTasks of
           None \<Rightarrow> None
         | Some oldIndexInColumn \<Rightarrow>
            (case findIndex (\<lambda>t. todo_id t = overId) columnTasks of
               None \<Rightarrow> None
             | Some newIndexInColumn \<Rightarrow>
                map_option assignOrder (arrayMove columnTasks oldIndexInColumn newIndexInColumn)))"

text \<open>Moving to another column: the state the updater returns.\<close>

definition finalTasksState :: "task list \<Rightarrow> task \<Rightarrow> string \<Rightarrow> string \<Rightarrow> string \<Rightarrow> task list" where
  "finalTasksState prevTasks draggedTask activeId targetStatus overId =
     (let sourceStatus = status draggedTask;
          overIsColumn = (overId \<in> set KANBAN_STATUSES);
          updatedTask = draggedTask\<lparr>status := targetStatus\<rparr>;
          tasksWithoutDragged = filter (\<lambda>t. todo_id t \<noteq> activeId) prevTasks;
          currentTargetColumnTasks =
            sortByOrder (filter (\<lambda>t. status t = targetStatus) tasksWithoutDragged);
          insertionIndex =
            (if \<not> overIsColumn
             then (case findIndex (\<lambda>t. todo_id t = overId) currentTargetColumnTasks of
                     Some overTaskCurrentIndex \<Rightarrow> overTaskCurrentIndex
                   | None \<Rightarrow> length currentTargetColumnTasks)
             else length currentTargetColumnTasks);
          newTargetColumnTasksWithMoved =
            take insertionIndex currentTargetColumnTasks
              @ updatedTask # drop insertionIndex currentTargetColumnTasks;
          finalTargetColumnTasks = assignOrder newTargetColumnTasksWithMoved;
          finalSourceColumnTasks =
            assignOrder (sortByOrder (filter (\<lambda>t. status t = sourceStatus) tasksWithoutDragged));
          otherStatusTasks =
            filter (\<lambda>t. status t \<noteq> sourceStatus \<and> status t \<noteq> targetStatus) tasksWithoutDragged
      in otherStatusTasks @ finalSourceColumnTasks @ finalTargetColumnTasks)"

text \<open>
  The calls of the \<^verbatim>\<open>try\<close> block of a move. The order of the \<^verbatim>\<open>PUT\<close> is read from
  \<^verbatim>\<open>finalTasksState\<close> before the first \<^verbatim>\<open>await\<close>, when the variable still holds the
  empty array of its declaration (\<open>initial\<close>): no task is found there and the order sent
  is 0. The two lists of order updates are read after the answer to the \<^verbatim>\<open>PUT\<close>, when
  the updater has assigned the variable (\<open>final\<close>).
\<close>

definition moveCalls :: "task list \<Rightarrow> task list \<Rightarrow> string \<Rightarrow> string \<Rightarrow> string \<Rightarrow> api_call list" where
  "moveCalls initial final activeId sourceStatus targetStatus =
     (let newOrder = (case find (\<lambda>t. todo_id t = activeId) initial of
                        Some finalDroppedTask \<Rightarrow> order finalDroppedTask
                      | None \<Rightarrow> 0);
          targetOrderUpdates =
            map (\<lambda>t. (todo_id t, order t)) (filter (\<lambda>t. status t = targetStatus) final);
          sourceOrderUpdates =
            map (\<lambda>t. (todo_id t, order t)) (filter (\<lambda>t. status t = sourceStatus) final)
      in PUT_task activeId targetStatus newOrder
           # (if targetOrderUpdates \<noteq> [] then [PATCH_reorder targetStatus targetOrderUpdates] else [])
           @ (if sourceOrderUpdates \<noteq> [] then [PATCH_reorder sourceStatus sourceOrderUpdates] else []))"

text \<open>
  \<^verbatim>\<open>handleDragEnd\<close>, the part that runs before the first call to the server: the
  state that the optimistic update sets and the calls of the \<^verbatim>\<open>try\<close> block that
  follows, or \<open>None\<close> where the handler returns with no action. \<open>over\<close> is \<open>None\<close> for
  a drop outside every droppable area.
\<close>

definition dragPlan :: "task list \<Rightarrow> string \<Rightarrow> string option \<Rightarrow> (task list \<times> api_call list) option" where
  "dragPlan tasks activeId over =
     (case over of
        None \<Rightarrow> None
      | Some overId \<Rightarrow>
         if activeId = overId then None
         else (case findIndex (\<lambda>t. todo_id t = activeId) tasks of
            None \<Rightarrow> None
          | Some draggedTaskIndex \<Rightarrow>
             (let originalTasks = tasks;
                  draggedTask = originalTasks ! draggedTaskIndex;
                  sourceStatus = status draggedTask;
                  overIsColumn = (overId \<in> set KANBAN_STATUSES)
              in (case (if overIsColumn then Some overId
                        else map_option (\<lambda>overTaskIndex. status (originalTasks ! overTaskIndex))
                               (findIndex (\<lambda>t. todo_id t = overId) originalTasks)) of
                    None \<Rightarrow> None
                  | Some targetStatus \<Rightarrow>
                     if sourceStatus = targetStatus
                     then (if overIsColumn then None
                           else (case reorderedColumnTasks originalTasks sourceStatus activeId overId of
                                   None \<Rightarrow> None
                                 | Some reordered \<Rightarrow>
                                    Some (filter (\<lambda>t. status t \<noteq> sourceStatus) tasks @ reordered,
                                          [PATCH_reorder sourceStatus
                                             (map (\<lambda>t. (todo_id t, order t)) reordered)])))
                     else (let final = finalTasksState tasks draggedTask activeId targetStatus overId
                           in Some (final, moveCalls [] final activeId sourceStatus targetStatus))))))"

text \<open>
  \<^verbatim>\<open>handleDragEnd\<close>: the state of \<^verbatim>\<open>tasks\<close> when the handler has settled, and the
  calls it issued. The \<^verbatim>\<open>catch\<close> block of either branch is
  \<^verbatim>\<open>setTasks(originalTasks)\<close>.
\<close>

definition handleDragEnd ::
  "(api_call \<Rightarrow> bool) \<Rightarrow> task list \<Rightarrow> string \<Rightarrow> string option \<Rightarrow> task list \<times> api_call list" where
  "handleDragEnd api tasks activeId over =
     (let originalTasks = tasks
      in case dragPlan tasks activeId over of
           None \<Rightarrow> (tasks, [])
         | Some (optimistic, calls) \<Rightarrow>
            (case run_calls api calls of
               (ok, issued) \<Rightarrow> (if ok then optimistic else originalTasks, issued)))"

section \<open>Auxiliary predicates\<close>



text \<open>The column a task is put in.\<close>

definition effective :: "task \<Rightarrow> string" where
  "effective t = (if status t \<notin> set KANBAN_STATUSES \<or> status t = ''Todo'' then defaultStatus else status t)"

section \<open>Example data\<close>

definition doc :: "string \<Rightarrow> string \<Rightarrow> string option \<Rightarrow> int \<Rightarrow> bool option \<Rightarrow> todo" where
  "doc i st p n a =
     \<lparr>todo_id = i, title = i, description = None, status = st, dueDate = None, createdAt = 0,
      updatedAt = 0, parentId = p, tags = [], order = n, isArchived = a\<rparr>"

definition tsk :: "string \<Rightarrow> string \<Rightarrow> int \<Rightarrow> bool option \<Rightarrow> task" where
  "tsk i st n a =
     \<lparr>todo_id = i, title = i, description = None, status = st, dueDate = None, createdAt = 0,
      updatedAt = 0, parentId = None, tags = [], order = n, isArchived = a, subtasks = []\<rparr>"

definition req :: "string option \<Rightarrow> string option \<Rightarrow> string option \<Rightarrow> body" where
  "req ttl st p =
     \<lparr>b_id = None, b_title = ttl, b_description = None, b_status = st, b_dueDate = None,
      b_createdAt = None, b_parentId = p, b_tags = None, b_order = None\<rparr>"

text \<open>
  A trim for the examples: it strips the six ASCII white space characters, as
  \<^verbatim>\<open>String.prototype.trim\<close> does on a string of ASCII characters.
\<close>

definition isSpace :: "char \<Rightarrow> bool" where
  "isSpace ch = (ch \<in> set [CHR '' '', CHR 0x09, CHR 0x0A, CHR 0x0B, CHR 0x0C, CHR 0x0D])"

definition asciiTrim :: "string \<Rightarrow> string" where
  "asciiTrim s = rev (dropWhile isSpace (rev (dropWhile isSpace s)))"

text \<open>
  An id check for the examples: 24 hexadecimal digits. \<^verbatim>\<open>ObjectId.isValid\<close> accepts such
  a string and refuses a string of one letter.
\<close>

definition isHex :: "char \<Rightarrow> bool" where
  "isHex ch = (ch \<in> set ''0123456789abcdefABCDEF'')"

definition hex24 :: "string \<Rightarrow> bool" where
  "hex24 s = (length s = 24 \<and> list_all isHex s)"

definition board :: collection where
  "board = [doc ''a'' ''pending'' None 0 None, doc ''a1'' ''pending'' (Some ''a'') 0 None,
            doc ''b'' ''done'' None 0 None, doc ''a2'' ''pending'' (Some ''a'') 1 None]"

definition pendingBoard :: collection where
  "pendingBoard = [doc ''x'' ''pending'' None 0 None, doc ''y'' ''pending'' None 1 None,
                   doc ''d'' ''done'' None 0 None, doc ''z'' ''pending'' None 2 None,
                   doc ''x1'' ''pending'' (Some ''x'') 0 None]"

definition archivedBoard :: collection where
  "archivedBoard = [doc ''x'' ''pending'' None 0 None, doc ''y'' ''pending'' None 1 None,
                    doc ''w'' ''pending'' None 3 (Some True), doc ''z'' ''pending'' None 2 None]"

definition family :: collection where
  "family = [doc ''507f1f77bcf86cd799439011'' ''done'' None 0 None,
             doc ''507f1f77bcf86cd799439012'' ''done'' (Some ''507f1f77bcf86cd799439011'') 0 None]"


definition lane :: "task list" where
  "lane = [tsk ''X'' ''pending'' 0 None, tsk ''Y'' ''pending'' 1 None, tsk ''D'' ''done'' 0 None,
           tsk ''Z'' ''pending'' 2 None]"

definition putOnly :: "api_call \<Rightarrow> bool" where
  "putOnly r = (case r of PUT_task i st n \<Rightarrow> True | PATCH_reorder st us \<Rightarrow> False)"

definition drifted :: "task list" where
  "drifted = [tsk ''X'' ''pending'' 1 None, tsk ''T'' ''Todo'' 0 None, tsk ''A'' ''done'' 0 (Some True),
              tsk ''D'' ''done'' 0 (Some False)]"

section \<open>Unfolding the definitions on examples\<close>


lemmas drag_eval = lane_def tsk_def reorderedColumnTasks_def sortByOrder_def arrayMove_def assignOrder_def
  enumerate_eq_zip Let_def

lemmas plan_eval = dragPlan_def finalTasksState_def moveCalls_def lane_def tsk_def
  reorderedColumnTasks_def sortByOrder_def arrayMove_def assignOrder_def enumerate_eq_zip Let_def
  KANBAN_STATUSES_def

lemmas create_eval = Let_def req_def doc_def countDocuments_def findById_def post_root_def
  post_subtasks_def save_def construct_def schema_valid_def sanitizeTags_def finalStatus_def
  defaultStatus_def KANBAN_STATUSES_def asciiTrim_def isSpace_def hex24_def isHex_def

section \<open>Deleting a todo\<close>

lemma find_Some_mem: "find P xs = Some x \<Longrightarrow> x \<in> set xs \<and> P x"
  by (induction xs) (auto split: if_splits)

lemma mset_deleteOne:
  "find flt c = Some x \<Longrightarrow> add_mset x (mset (deleteOne flt c)) = mset c"
  by (induction c) (auto split: if_splits)

lemma find_filter_first:
  "find P c = Some x \<Longrightarrow> Q x \<Longrightarrow> \<exists>y. find P (filter Q c) = Some y \<and> P y \<and> Q y"
  by (induction c) (auto split: if_splits)

text \<open>
  C5. Deleting an existing top-level item that has k sub-items answers with the count k
  and removes k + 1 stored documents: the k documents whose \<^verbatim>\<open>parentId\<close> is the deleted
  id and one document with that id. No document left refers to the deleted id as its
  parent. Deleting an id that is not stored answers 404 and leaves the collection as it
  was.
\<close>

theorem delete_todo_cascade:
  "(findById i c = Some t \<longrightarrow> parentId t = None \<longrightarrow>
      fst (delete_todo i c) = Success 200 (countDocuments (\<lambda>x. parentId x = Some i) c)
      \<and> length (snd (delete_todo i c)) + (countDocuments (\<lambda>x. parentId x = Some i) c + 1) = length c
      \<and> (\<exists>p. todo_id p = i \<and> parentId p \<noteq> Some i \<and>
            mset c = add_mset p (mset (filter (\<lambda>x. parentId x = Some i) c)
                       + mset (snd (delete_todo i c))))
      \<and> countDocuments (\<lambda>x. parentId x = Some i) (snd (delete_todo i c)) = 0)
   \<and> (findById i c = None \<longrightarrow> delete_todo i c = (Failure 404 ''Todo not found'', c))"
proof (intro conjI impI)
  assume found: "findById i c = Some t" and top: "parentId t = None"
  let ?sub = "\<lambda>x. parentId x = Some i"
  let ?c1 = "filter (\<lambda>x. \<not> ?sub x) c"
  let ?c' = "deleteOne (\<lambda>x. todo_id x = i) ?c1"
  have res: "delete_todo i c = (Success 200 (countDocuments ?sub c), ?c')"
    using found by (simp add: delete_todo_def deleteMany_def countDocuments_def)
  from found top obtain p where p: "find (\<lambda>x. todo_id x = i) ?c1 = Some p"
      and pid: "todo_id p = i" and pnot: "\<not> ?sub p"
    using find_filter_first [of "\<lambda>x. todo_id x = i" c t "\<lambda>x. \<not> ?sub x"]
    by (auto simp: findById_def)
  have m1: "add_mset p (mset ?c') = mset ?c1"
    using mset_deleteOne [OF p] .
  have m2: "mset c = mset (filter ?sub c) + mset ?c1"
    by simp
  have m: "mset c = add_mset p (mset (filter ?sub c) + mset ?c')"
    using m1 m2 by (metis union_mset_add_mset_right)
  have "size (mset c) = Suc (size (mset (filter ?sub c)) + size (mset ?c'))"
    using arg_cong [OF m, of size] by (simp del: mset_filter)
  then have len: "length ?c' + (countDocuments ?sub c + 1) = length c"
    by (simp add: countDocuments_def del: mset_filter)
  have "set_mset (mset ?c') \<subseteq> set_mset (mset ?c1)"
    using m1 by (metis set_mset_add_mset_insert subset_insertI)
  then have none: "countDocuments ?sub ?c' = 0"
    by (auto simp: countDocuments_def filter_empty_conv)
  show "fst (delete_todo i c) = Success 200 (countDocuments ?sub c)"
    using res by simp
  show "length (snd (delete_todo i c)) + (countDocuments ?sub c + 1) = length c"
    using res len by simp
  show "\<exists>p. todo_id p = i \<and> parentId p \<noteq> Some i \<and>
            mset c = add_mset p (mset (filter ?sub c) + mset (snd (delete_todo i c)))"
    using res m pid pnot by auto
  show "countDocuments ?sub (snd (delete_todo i c)) = 0"
    using res none by simp
next
  assume "findById i c = None"
  then show "delete_todo i c = (Failure 404 ''Todo not found'', c)"
    by (simp add: delete_todo_def)
qed

theorem delete_todo_cascade_witness:
  "findById ''a'' board = Some (doc ''a'' ''pending'' None 0 None)
   \<and> parentId (doc ''a'' ''pending'' None 0 None) = None
   \<and> fst (delete_todo ''a'' board) = Success 200 2
   \<and> length (snd (delete_todo ''a'' board)) + 3 = length board
   \<and> findById ''zz'' board = None
   \<and> delete_todo ''zz'' board = (Failure 404 ''Todo not found'', board)"
  using delete_todo_cascade [of "''a''" board "doc ''a'' ''pending'' None 0 None"]
        delete_todo_cascade [of "''zz''" board "doc ''a'' ''pending'' None 0 None"]
  by (simp add: board_def doc_def findById_def countDocuments_def)

section \<open>Creating todos and sub-items\<close>

lemma defaultStatus_pending: "defaultStatus = ''pending''"
  by (simp add: defaultStatus_def KANBAN_STATUSES_def)

lemma finalStatus_enumerated: "finalStatus st \<in> set KANBAN_STATUSES"
  by (simp add: finalStatus_def defaultStatus_def KANBAN_STATUSES_def split: option.splits)

lemma finalStatus_default:
  "st = None \<or> (\<exists>s. st = Some s \<and> s \<notin> set KANBAN_STATUSES) \<Longrightarrow> finalStatus st = ''pending''"
  by (auto simp: finalStatus_def defaultStatus_pending)

lemma save_Inr:
  "save trim newId now d c = Inr (t, c') \<Longrightarrow>
     t = construct trim newId now d \<and> c' = c @ [t] \<and> schema_valid d t \<and> todo_id t \<notin> todo_id ` set c"
  by (auto simp: save_def Let_def split: if_splits)

lemma save_invalid_title:
  "b_title d = None \<or> (\<exists>s. b_title d = Some s \<and> trim s = []) \<Longrightarrow>
     save trim newId now d c = Inl ValidationError"
  by (auto simp: save_def Let_def schema_valid_def construct_def)

lemma save_ok:
  "b_title d = Some ttl \<Longrightarrow> trim ttl \<noteq> [] \<Longrightarrow> b_status d = Some st \<Longrightarrow> st \<in> set KANBAN_STATUSES \<Longrightarrow>
   b_id d = None \<Longrightarrow> b_parentId d \<noteq> Some newId \<Longrightarrow> newId \<notin> todo_id ` set c \<Longrightarrow>
   save trim newId now d c = Inr (construct trim newId now d, c @ [construct trim newId now d])"
  by (auto simp: save_def Let_def schema_valid_def construct_def)

lemma post_root_Success:
  "post_root trim newId now reqBody c = (Success code t, c') \<Longrightarrow>
     code = 201 \<and> c' = c @ [t] \<and> parentId t = None \<and> status t = finalStatus (b_status reqBody)
     \<and> order t = int (countDocuments (\<lambda>x. parentId x = None \<and> status x = finalStatus (b_status reqBody)) c)"
  by (auto simp: post_root_def Let_def construct_def dest!: save_Inr split: sum.splits save_error.splits)

lemma post_subtasks_Success:
  "post_subtasks trim isValid newId now parent reqBody c = (Success code t, c') \<Longrightarrow>
     code = 201 \<and> c' = c @ [t] \<and> parentId t = Some parent \<and> status t = finalStatus (b_status reqBody)
     \<and> order t = int (countDocuments (\<lambda>x. parentId x = Some parent) c)
     \<and> (\<exists>p. findById parent c = Some p)"
  by (auto simp: post_subtasks_def Let_def construct_def dest!: save_Inr
           split: sum.splits save_error.splits if_splits option.splits)

lemma post_subtasks_Failure:
  "post_subtasks trim isValid newId now parent reqBody c = (Failure code msg, c') \<Longrightarrow> c' = c"
  by (auto simp: post_subtasks_def Let_def split: sum.splits save_error.splits if_splits option.splits)

text \<open>
  C10 as stated fails: a missing parent does not always yield the not-found answer. The
  format of the parent id is checked first, and for an id that is malformed the answer is
  400, \<^verbatim>\<open>Invalid parent ID format\<close>, whether a document has that id or not.
\<close>

theorem subtask_malformed_parent_counterexample:
  "findById ''q'' family = None
   \<and> \<not> hex24 ''q''
   \<and> post_subtasks asciiTrim hex24 ''507f1f77bcf86cd799439013'' 0 ''q'' (req (Some ''n'') None None) family
       = (Failure 400 ''Invalid parent ID format'', family)"
  by (simp add: create_eval family_def)

text \<open>
  C10, amended. A todo that \<^verbatim>\<open>POST /\<close> creates is stored with \<^verbatim>\<open>parentId\<close> null, whatever
  the body supplies. \<^verbatim>\<open>POST /:parentId/subtasks\<close> creates a sub-item only under a stored
  parent, and checks the parent before any insert: a parent id that is malformed answers
  400, a well-formed id that no document has answers 404, and whenever the route fails the
  collection is left as it was.
\<close>

theorem create_parent_link:
  "(post_root trim newId now reqBody c = (Success code t, c') \<longrightarrow> parentId t = None \<and> c' = c @ [t])
   \<and> (\<not> isValid parent \<longrightarrow>
        post_subtasks trim isValid newId now parent reqBody c = (Failure 400 ''Invalid parent ID format'', c))
   \<and> (isValid parent \<longrightarrow> findById parent c = None \<longrightarrow>
        post_subtasks trim isValid newId now parent reqBody c = (Failure 404 ''Parent todo not found'', c))
   \<and> (post_subtasks trim isValid newId now parent reqBody c = (Success code' s, c'') \<longrightarrow>
        (\<exists>p \<in> set c. todo_id p = parent) \<and> parentId s = Some parent \<and> c'' = c @ [s])
   \<and> (post_subtasks trim isValid newId now parent reqBody c = (Failure code' msg, c'') \<longrightarrow> c'' = c)"
proof (intro conjI impI)
  assume "post_root trim newId now reqBody c = (Success code t, c')"
  then show "parentId t = None" "c' = c @ [t]"
    using post_root_Success by blast+
next
  assume "\<not> isValid parent"
  then show "post_subtasks trim isValid newId now parent reqBody c = (Failure 400 ''Invalid parent ID format'', c)"
    by (simp add: post_subtasks_def)
next
  assume "isValid parent" "findById parent c = None"
  then show "post_subtasks trim isValid newId now parent reqBody c = (Failure 404 ''Parent todo not found'', c)"
    by (simp add: post_subtasks_def)
next
  assume a: "post_subtasks trim isValid newId now parent reqBody c = (Success code' s, c'')"
  from post_subtasks_Success [OF a] obtain p where "findById parent c = Some p" by blast
  then have "p \<in> set c \<and> todo_id p = parent"
    using find_Some_mem [of "\<lambda>t. todo_id t = parent" c p] by (simp add: findById_def)
  then show "\<exists>p \<in> set c. todo_id p = parent" by blast
  show "parentId s = Some parent" "c'' = c @ [s]"
    using post_subtasks_Success [OF a] by blast+
next
  assume "post_subtasks trim isValid newId now parent reqBody c = (Failure code' msg, c'')"
  then show "c'' = c" by (rule post_subtasks_Failure)
qed

theorem create_parent_link_witness:
  "post_root asciiTrim ''n'' 0 (req (Some ''n'') None (Some ''a'')) board
     = (Success 201 (doc ''n'' ''pending'' None 1 None), board @ [doc ''n'' ''pending'' None 1 None])
   \<and> parentId (doc ''n'' ''pending'' None 1 None) = None
   \<and> \<not> hex24 ''q''
   \<and> post_subtasks asciiTrim hex24 ''507f1f77bcf86cd799439013'' 0 ''q'' (req (Some ''n'') None None) family
       = (Failure 400 ''Invalid parent ID format'', family)
   \<and> hex24 ''507f1f77bcf86cd799439019''
   \<and> findById ''507f1f77bcf86cd799439019'' family = None
   \<and> post_subtasks asciiTrim hex24 ''507f1f77bcf86cd799439013'' 0 ''507f1f77bcf86cd799439019''
        (req (Some ''n'') None None) family
       = (Failure 404 ''Parent todo not found'', family)
   \<and> post_subtasks asciiTrim hex24 ''507f1f77bcf86cd799439013'' 0 ''507f1f77bcf86cd799439011''
        (req (Some ''507f1f77bcf86cd799439013'') None None) family
       = (Success 201 (doc ''507f1f77bcf86cd799439013'' ''pending'' (Some ''507f1f77bcf86cd799439011'') 1 None),
          family @ [doc ''507f1f77bcf86cd799439013'' ''pending'' (Some ''507f1f77bcf86cd799439011'') 1 None])
   \<and> (\<exists>p \<in> set family. todo_id p = ''507f1f77bcf86cd799439011'')
   \<and> parentId (doc ''507f1f77bcf86cd799439013'' ''pending'' (Some ''507f1f77bcf86cd799439011'') 1 None)
       = Some ''507f1f77bcf86cd799439011''"
proof -
  have e1: "post_root asciiTrim ''n'' 0 (req (Some ''n'') None (Some ''a'')) board
     = (Success 201 (doc ''n'' ''pending'' None 1 None), board @ [doc ''n'' ''pending'' None 1 None])"
    by (simp add: create_eval board_def)
  have v: "\<not> hex24 ''q''" "hex24 ''507f1f77bcf86cd799439019''"
    by (simp_all add: hex24_def isHex_def)
  have e2: "findById ''507f1f77bcf86cd799439019'' family = None"
    by (simp add: findById_def family_def doc_def)
  have e3: "post_subtasks asciiTrim hex24 ''507f1f77bcf86cd799439013'' 0 ''507f1f77bcf86cd799439011''
        (req (Some ''507f1f77bcf86cd799439013'') None None) family
       = (Success 201 (doc ''507f1f77bcf86cd799439013'' ''pending'' (Some ''507f1f77bcf86cd799439011'') 1 None),
          family @ [doc ''507f1f77bcf86cd799439013'' ''pending'' (Some ''507f1f77bcf86cd799439011'') 1 None])"
    by (simp add: create_eval family_def)
  note t1 = create_parent_link [where trim = asciiTrim and newId = "''n''" and now = 0
          and reqBody = "req (Some ''n'') None (Some ''a'')"
          and c = board and code = 201 and t = "doc ''n'' ''pending'' None 1 None"
          and c' = "board @ [doc ''n'' ''pending'' None 1 None]"]
  note t2 = create_parent_link [where trim = asciiTrim and newId = "''507f1f77bcf86cd799439013''" and now = 0
          and reqBody = "req (Some ''n'') None None"
          and c = family and isValid = hex24 and parent = "''q''"]
  note t3 = create_parent_link [where trim = asciiTrim and newId = "''507f1f77bcf86cd799439013''" and now = 0
          and reqBody = "req (Some ''n'') None None"
          and c = family and isValid = hex24 and parent = "''507f1f77bcf86cd799439019''"]
  note t4 = create_parent_link [where trim = asciiTrim and newId = "''507f1f77bcf86cd799439013''" and now = 0
          and reqBody = "req (Some ''507f1f77bcf86cd799439013'') None None"
          and c = family and isValid = hex24 and parent = "''507f1f77bcf86cd799439011''" and code' = 201
          and s = "doc ''507f1f77bcf86cd799439013'' ''pending'' (Some ''507f1f77bcf86cd799439011'') 1 None"
          and c'' = "family @ [doc ''507f1f77bcf86cd799439013'' ''pending'' (Some ''507f1f77bcf86cd799439011'') 1 None]"]
  from t1 e1 have p1: "parentId (doc ''n'' ''pending'' None 1 None) = None" by blast
  from t2 v(1) have p2: "post_subtasks asciiTrim hex24 ''507f1f77bcf86cd799439013'' 0 ''q''
        (req (Some ''n'') None None) family = (Failure 400 ''Invalid parent ID format'', family)" by blast
  from t3 v(2) e2 have p3: "post_subtasks asciiTrim hex24 ''507f1f77bcf86cd799439013'' 0 ''507f1f77bcf86cd799439019''
        (req (Some ''n'') None None) family = (Failure 404 ''Parent todo not found'', family)" by blast
  from t4 e3 have p4: "(\<exists>p \<in> set family. todo_id p = ''507f1f77bcf86cd799439011'')
      \<and> parentId (doc ''507f1f77bcf86cd799439013'' ''pending'' (Some ''507f1f77bcf86cd799439011'') 1 None)
          = Some ''507f1f77bcf86cd799439011''" by blast
  from e1 v e2 e3 p1 p2 p3 p4 show ?thesis by blast
qed

text \<open>
  C6 as stated fails: the order of a new top-level todo is the count of all stored
  top-level documents with its status, the archived ones included. Here the first lane
  holds three top-level documents that are not archived and one that is, and the new todo
  gets order 4.
\<close>

theorem create_order_counts_archived_counterexample:
  "post_root asciiTrim ''n'' 0 (req (Some ''n'') None None) archivedBoard
     = (Success 201 (doc ''n'' ''pending'' None 4 None), archivedBoard @ [doc ''n'' ''pending'' None 4 None])
   \<and> countDocuments (\<lambda>x. parentId x = None \<and> status x = ''pending'' \<and> isArchived x \<noteq> Some True) archivedBoard = 3"
  by (simp add: create_eval archivedBoard_def)

text \<open>
  C6, amended. A create request with no lane, or with one outside the enumerated set, that
  succeeds stores the new top-level todo in the first lane, \<^verbatim>\<open>pending\<close>, with an order
  equal to the count of all stored top-level documents of that lane, archived or not. It
  succeeds when the title is not empty once the runtime has trimmed it and the fresh id is
  not stored. When no stored document is archived the count is that of the documents that
  are not archived.
\<close>

theorem create_default_lane_order:
  assumes "b_status reqBody = None \<or> (\<exists>s. b_status reqBody = Some s \<and> s \<notin> set KANBAN_STATUSES)"
  shows "(post_root trim newId now reqBody c = (Success code t, c') \<longrightarrow>
            status t = hd KANBAN_STATUSES \<and> status t = ''pending''
            \<and> order t = int (countDocuments (\<lambda>x. parentId x = None \<and> status x = ''pending'') c)
            \<and> c' = c @ [t])
         \<and> (b_title reqBody = Some ttl \<longrightarrow> trim ttl \<noteq> [] \<longrightarrow> b_id reqBody = None \<longrightarrow>
              newId \<notin> todo_id ` set c \<longrightarrow>
              (\<exists>t. post_root trim newId now reqBody c = (Success 201 t, c @ [t])))
         \<and> ((\<forall>x \<in> set c. isArchived x \<noteq> Some True) \<longrightarrow>
              countDocuments (\<lambda>x. parentId x = None \<and> status x = ''pending'') c
              = countDocuments (\<lambda>x. parentId x = None \<and> status x = ''pending'' \<and> isArchived x \<noteq> Some True) c)"
proof (intro conjI impI)
  have fs: "finalStatus (b_status reqBody) = ''pending''"
    using assms by (rule finalStatus_default)
  {
    assume a: "post_root trim newId now reqBody c = (Success code t, c')"
    show "status t = hd KANBAN_STATUSES" "status t = ''pending''"
      "order t = int (countDocuments (\<lambda>x. parentId x = None \<and> status x = ''pending'') c)"
      "c' = c @ [t]"
      using post_root_Success [OF a] fs by (simp_all add: KANBAN_STATUSES_def)
  }
  {
    assume "b_title reqBody = Some ttl" "trim ttl \<noteq> []" "b_id reqBody = None" "newId \<notin> todo_id ` set c"
    then show "\<exists>t. post_root trim newId now reqBody c = (Success 201 t, c @ [t])"
      using finalStatus_enumerated [of "b_status reqBody"]
      by (simp add: post_root_def Let_def save_ok [where ttl = ttl and st = "finalStatus (b_status reqBody)"])
  }
  {
    assume "\<forall>x \<in> set c. isArchived x \<noteq> Some True"
    then show "countDocuments (\<lambda>x. parentId x = None \<and> status x = ''pending'') c
              = countDocuments (\<lambda>x. parentId x = None \<and> status x = ''pending'' \<and> isArchived x \<noteq> Some True) c"
      unfolding countDocuments_def by (intro arg_cong [where f = length] filter_cong) auto
  }
qed

theorem create_default_lane_order_witness:
  "post_root asciiTrim ''n'' 0 (req (Some ''n'') None None) pendingBoard
     = (Success 201 (doc ''n'' ''pending'' None 3 None), pendingBoard @ [doc ''n'' ''pending'' None 3 None])
   \<and> countDocuments (\<lambda>x. parentId x = None \<and> status x = ''pending'' \<and> isArchived x \<noteq> Some True) pendingBoard = 3"
  using create_default_lane_order [where trim = asciiTrim and reqBody = "req (Some ''n'') None None"
          and newId = "''n''" and now = 0 and c = pendingBoard and code = 201
          and t = "doc ''n'' ''pending'' None 3 None"
          and c' = "pendingBoard @ [doc ''n'' ''pending'' None 3 None]" and ttl = "''n''"]
  by (simp add: create_eval pendingBoard_def)

text \<open>
  C8 as stated fails: a lane outside the enumerated set is no validation error. The todo
  is created in the first lane.
\<close>

theorem create_invalid_lane_counterexample:
  "''bogus'' \<notin> set KANBAN_STATUSES
   \<and> post_root asciiTrim ''n'' 0 (req (Some ''n'') (Some ''bogus'') None) board
     = (Success 201 (doc ''n'' ''pending'' None 1 None), board @ [doc ''n'' ''pending'' None 1 None])"
  by (simp add: create_eval board_def)

text \<open>
  C8, amended. A create request whose title is missing, or empty once the runtime has
  trimmed it, fails with the validation error (code 400) and leaves the collection as it
  was. A lane outside the enumerated set does not fail: with a title that is not empty once
  trimmed and a fresh id the todo is created in the first lane.
\<close>

theorem create_title_validation:
  "((b_title reqBody = None \<or> (\<exists>s. b_title reqBody = Some s \<and> trim s = [])) \<longrightarrow>
       post_root trim newId now reqBody c = (Failure 400 ''Validation failed'', c))
   \<and> (b_title reqBody = Some ttl \<longrightarrow> trim ttl \<noteq> [] \<longrightarrow> b_id reqBody = None \<longrightarrow>
        newId \<notin> todo_id ` set c \<longrightarrow> b_status reqBody = Some st \<longrightarrow> st \<notin> set KANBAN_STATUSES \<longrightarrow>
        (\<exists>t. post_root trim newId now reqBody c = (Success 201 t, c @ [t]) \<and> status t = ''pending''))"
proof (intro conjI impI)
  assume "b_title reqBody = None \<or> (\<exists>s. b_title reqBody = Some s \<and> trim s = [])"
  then show "post_root trim newId now reqBody c = (Failure 400 ''Validation failed'', c)"
    by (simp add: post_root_def Let_def save_invalid_title)
next
  assume a: "b_title reqBody = Some ttl" "trim ttl \<noteq> []" "b_id reqBody = None"
    "newId \<notin> todo_id ` set c" "b_status reqBody = Some st" "st \<notin> set KANBAN_STATUSES"
  have fs: "finalStatus (b_status reqBody) = ''pending''"
    using a by (simp add: finalStatus_default)
  have "post_root trim newId now reqBody c
        = (Success 201 (construct trim newId now
             (reqBody\<lparr>b_parentId := None, b_tags := Some (sanitizeTags trim (b_tags reqBody)),
                      b_status := Some ''pending'',
                      b_order := Some (int (countDocuments (\<lambda>t. parentId t = None \<and> status t = ''pending'') c))\<rparr>)),
           c @ [construct trim newId now
             (reqBody\<lparr>b_parentId := None, b_tags := Some (sanitizeTags trim (b_tags reqBody)),
                      b_status := Some ''pending'',
                      b_order := Some (int (countDocuments (\<lambda>t. parentId t = None \<and> status t = ''pending'') c))\<rparr>)])"
    using a fs finalStatus_enumerated [of "b_status reqBody"]
    by (simp add: post_root_def Let_def save_ok [where ttl = ttl and st = "''pending''"])
  then show "\<exists>t. post_root trim newId now reqBody c = (Success 201 t, c @ [t]) \<and> status t = ''pending''"
    by (simp add: construct_def)
qed

theorem create_title_validation_witness:
  "asciiTrim ''  '' = []
   \<and> post_root asciiTrim ''n'' 0 (req (Some ''  '') (Some ''done'') None) board
       = (Failure 400 ''Validation failed'', board)
   \<and> asciiTrim ''n'' \<noteq> [] \<and> ''n'' \<notin> todo_id ` set board \<and> ''bogus'' \<notin> set KANBAN_STATUSES
   \<and> (\<exists>t. post_root asciiTrim ''n'' 0 (req (Some ''n'') (Some ''bogus'') None) board = (Success 201 t, board @ [t])
          \<and> status t = ''pending'')"
proof -
  have h1: "asciiTrim ''  '' = []" "asciiTrim ''n'' \<noteq> []"
    by (simp_all add: asciiTrim_def isSpace_def)
  have h2: "''n'' \<notin> todo_id ` set board" "''bogus'' \<notin> set KANBAN_STATUSES"
    by (simp_all add: board_def doc_def KANBAN_STATUSES_def)
  have b1: "b_title (req (Some ''  '') (Some ''done'') None) = Some ''  ''"
    and b2: "b_title (req (Some ''n'') (Some ''bogus'') None) = Some ''n''"
       "b_id (req (Some ''n'') (Some ''bogus'') None) = None"
       "b_status (req (Some ''n'') (Some ''bogus'') None) = Some ''bogus''"
    by (simp_all add: req_def)
  note t1 = create_title_validation [where trim = asciiTrim and reqBody = "req (Some ''  '') (Some ''done'') None"
              and newId = "''n''" and now = 0 and c = board]
  note t2 = create_title_validation [where trim = asciiTrim and reqBody = "req (Some ''n'') (Some ''bogus'') None"
              and newId = "''n''" and now = 0 and c = board and ttl = "''n''" and st = "''bogus''"]
  from t1 b1 h1 have p1: "post_root asciiTrim ''n'' 0 (req (Some ''  '') (Some ''done'') None) board
      = (Failure 400 ''Validation failed'', board)" by blast
  from t2 b2 h1 h2 have p2: "\<exists>t. post_root asciiTrim ''n'' 0 (req (Some ''n'') (Some ''bogus'') None) board
      = (Success 201 t, board @ [t]) \<and> status t = ''pending''" by blast
  from h1 h2 p1 p2 show ?thesis by blast
qed

text \<open>
  C4 as stated fails: a sub-item is stored with a status. Created with no status in the
  body, it gets the first lane.
\<close>

theorem subtask_gets_lane_counterexample:
  "post_subtasks asciiTrim hex24 ''507f1f77bcf86cd799439013'' 0 ''507f1f77bcf86cd799439011''
        (req (Some ''507f1f77bcf86cd799439013'') None None) family
       = (Success 201 (doc ''507f1f77bcf86cd799439013'' ''pending'' (Some ''507f1f77bcf86cd799439011'') 1 None),
          family @ [doc ''507f1f77bcf86cd799439013'' ''pending'' (Some ''507f1f77bcf86cd799439011'') 1 None])
   \<and> parentId (doc ''507f1f77bcf86cd799439013'' ''pending'' (Some ''507f1f77bcf86cd799439011'') 1 None)
       = Some ''507f1f77bcf86cd799439011''
   \<and> status (doc ''507f1f77bcf86cd799439013'' ''pending'' (Some ''507f1f77bcf86cd799439011'') 1 None) = ''pending''
   \<and> ''pending'' \<in> set KANBAN_STATUSES"
  by (simp add: create_eval family_def)

text \<open>
  C4, amended. Every sub-item that \<^verbatim>\<open>POST /:parentId/subtasks\<close> creates is stored with a
  status of the enumerated set: the status of the body when that is enumerated, the first
  lane when the body has none.
\<close>

theorem subtask_status_assigned:
  "post_subtasks trim isValid newId now parent reqBody c = (Success code s, c') \<Longrightarrow>
     s \<in> set c' \<and> parentId s = Some parent \<and> status s = finalStatus (b_status reqBody)
     \<and> status s \<in> set KANBAN_STATUSES
     \<and> (b_status reqBody = None \<longrightarrow> status s = ''pending'')
     \<and> (b_status reqBody = Some st \<longrightarrow> st \<in> set KANBAN_STATUSES \<longrightarrow> status s = st)"
proof -
  assume a: "post_subtasks trim isValid newId now parent reqBody c = (Success code s, c')"
  note r = post_subtasks_Success [OF a]
  have "b_status reqBody = None \<longrightarrow> finalStatus (b_status reqBody) = ''pending''"
    by (simp add: finalStatus_def defaultStatus_pending)
  moreover have "b_status reqBody = Some st \<longrightarrow> st \<in> set KANBAN_STATUSES \<longrightarrow> finalStatus (b_status reqBody) = st"
    by (auto simp: finalStatus_def KANBAN_STATUSES_def)
  ultimately show ?thesis
    using r finalStatus_enumerated [of "b_status reqBody"] by simp
qed

theorem subtask_status_assigned_witness:
  "post_subtasks asciiTrim hex24 ''507f1f77bcf86cd799439013'' 0 ''507f1f77bcf86cd799439011''
        (req (Some ''507f1f77bcf86cd799439013'') (Some ''done'') None) family
       = (Success 201 (doc ''507f1f77bcf86cd799439013'' ''done'' (Some ''507f1f77bcf86cd799439011'') 1 None),
          family @ [doc ''507f1f77bcf86cd799439013'' ''done'' (Some ''507f1f77bcf86cd799439011'') 1 None])
   \<and> parentId (doc ''507f1f77bcf86cd799439013'' ''done'' (Some ''507f1f77bcf86cd799439011'') 1 None)
       = Some ''507f1f77bcf86cd799439011''
   \<and> status (doc ''507f1f77bcf86cd799439013'' ''done'' (Some ''507f1f77bcf86cd799439011'') 1 None)
       \<in> set KANBAN_STATUSES"
proof -
  have e: "post_subtasks asciiTrim hex24 ''507f1f77bcf86cd799439013'' 0 ''507f1f77bcf86cd799439011''
        (req (Some ''507f1f77bcf86cd799439013'') (Some ''done'') None) family
       = (Success 201 (doc ''507f1f77bcf86cd799439013'' ''done'' (Some ''507f1f77bcf86cd799439011'') 1 None),
          family @ [doc ''507f1f77bcf86cd799439013'' ''done'' (Some ''507f1f77bcf86cd799439011'') 1 None])"
    by (simp add: create_eval family_def)
  from subtask_status_assigned [OF e] e show ?thesis by blast
qed

section \<open>Reordering within a status\<close>



















section \<open>The order sequencer\<close>

lemma findIndex_Some: "findIndex P xs = Some i \<Longrightarrow> i < length xs \<and> P (xs ! i)"
  by (induction xs arbitrary: i) (auto split: if_splits)

lemma map_order_enumerate:
  "map order (map (\<lambda>(index, tsk). tsk\<lparr>order := int index\<rparr>) (enumerate n ts)) = map int [n..<n + length ts]"
proof (induction ts arbitrary: n)
  case Nil
  show ?case by simp
next
  case (Cons t ts)
  have "[n..<n + length (t # ts)] = n # [Suc n..<Suc n + length ts]"
    by (simp add: upt_conv_Cons del: upt_Suc)
  then show ?case using Cons.IH [of "Suc n"] by (simp del: upt_Suc)
qed

lemma map_id_enumerate:
  "map todo_id (map (\<lambda>(index, tsk). tsk\<lparr>order := int index\<rparr>) (enumerate n ts)) = map todo_id ts"
  by (induction ts arbitrary: n) simp_all

lemma map_order_assignOrder: "map order (assignOrder ts) = map int [0..<length ts]"
  using map_order_enumerate [of 0 ts] by (simp add: assignOrder_def)

lemma map_id_assignOrder: "map todo_id (assignOrder ts) = map todo_id ts"
  using map_id_enumerate [of 0 ts] by (simp add: assignOrder_def)

lemma length_assignOrder: "length (assignOrder ts) = length ts"
  by (simp add: assignOrder_def)

lemma arrayMove_Some:
  "i < length xs \<Longrightarrow> \<exists>ys. arrayMove xs i j = Some ys \<and> mset ys = mset xs"
proof -
  assume i: "i < length xs"
  let ?r = "take i xs @ drop (Suc i) xs"
  have "mset xs = mset (take i xs @ xs ! i # drop (Suc i) xs)"
    using i by (simp only: id_take_nth_drop [symmetric])
  then have a: "mset xs = add_mset (xs ! i) (mset ?r)" by simp
  have "mset (take j ?r @ xs ! i # drop j ?r) = add_mset (xs ! i) (mset (take j ?r @ drop j ?r))"
    by simp
  also have "\<dots> = add_mset (xs ! i) (mset ?r)"
    by (simp only: append_take_drop_id)
  finally show ?thesis using i a by (simp add: arrayMove_def Let_def)
qed

lemma reorderedColumnTasks_Some:
  assumes "reorderedColumnTasks originalTasks sourceStatus activeId overId = Some reordered"
  shows "\<exists>moved. reordered = assignOrder moved
           \<and> mset moved = mset (filter (\<lambda>t. status t = sourceStatus) originalTasks)"
proof -
  let ?col = "sortByOrder (filter (\<lambda>t. status t = sourceStatus) originalTasks)"
  from assms obtain i j moved where "arrayMove ?col i j = Some moved" and r: "reordered = assignOrder moved"
    and "findIndex (\<lambda>t. todo_id t = activeId) ?col = Some i"
    by (auto simp: reorderedColumnTasks_def Let_def split: option.splits)
  then have "i < length ?col" using findIndex_Some by blast
  from arrayMove_Some [OF this, of j] \<open>arrayMove ?col i j = Some moved\<close>
  have "mset moved = mset ?col" by auto
  then have "mset moved = mset (filter (\<lambda>t. status t = sourceStatus) originalTasks)"
    by (simp add: sortByOrder_def)
  with r show ?thesis by blast
qed

text \<open>
  C3. The reorder computation gives every task of the desired sequence the order equal
  to its position: the ids stay in sequence and the orders are 0, 1, ..., n - 1, distinct
  and without gap. The handler applies it to the tasks of one column after moving the
  dragged one, so the reordered column holds the ids of the column with these orders.
\<close>

theorem reorder_dense_orders:
  "map todo_id (assignOrder desired) = map todo_id desired
   \<and> map order (assignOrder desired) = map int [0..<length desired]
   \<and> distinct (map order (assignOrder desired))
   \<and> set (map order (assignOrder desired)) = int ` {0..<length desired}
   \<and> (reorderedColumnTasks originalTasks sourceStatus activeId overId = Some reordered \<longrightarrow>
        map order reordered = map int [0..<length reordered]
        \<and> mset (map todo_id reordered)
            = mset (map todo_id (filter (\<lambda>t. status t = sourceStatus) originalTasks)))"
proof (intro conjI impI)
  show "map todo_id (assignOrder desired) = map todo_id desired"
    by (rule map_id_assignOrder)
  show "map order (assignOrder desired) = map int [0..<length desired]"
    by (rule map_order_assignOrder)
  show "distinct (map order (assignOrder desired))"
    by (simp only: map_order_assignOrder) (simp add: distinct_map)
  show "set (map order (assignOrder desired)) = int ` {0..<length desired}"
    by (simp only: map_order_assignOrder) simp
next
  assume "reorderedColumnTasks originalTasks sourceStatus activeId overId = Some reordered"
  from reorderedColumnTasks_Some [OF this] obtain moved where r: "reordered = assignOrder moved"
    and m: "mset moved = mset (filter (\<lambda>t. status t = sourceStatus) originalTasks)" by blast
  show "map order reordered = map int [0..<length reordered]"
    using r by (simp only: map_order_assignOrder length_assignOrder)
  have "mset (map todo_id reordered) = mset (map todo_id moved)"
    using r by (simp only: map_id_assignOrder)
  also have "\<dots> = mset (map todo_id (filter (\<lambda>t. status t = sourceStatus) originalTasks))"
    using m by (metis mset_map)
  finally show "mset (map todo_id reordered)
            = mset (map todo_id (filter (\<lambda>t. status t = sourceStatus) originalTasks))" .
qed

theorem reorder_dense_orders_witness:
  "reorderedColumnTasks lane ''pending'' ''Z'' ''X''
     = Some [tsk ''Z'' ''pending'' 0 None, tsk ''X'' ''pending'' 1 None, tsk ''Y'' ''pending'' 2 None]
   \<and> map order [tsk ''Z'' ''pending'' 0 None, tsk ''X'' ''pending'' 1 None, tsk ''Y'' ''pending'' 2 None]
       = map int [0..<3]
   \<and> map (\<lambda>t. (todo_id t, order t))
        (assignOrder [tsk ''Z'' ''pending'' 2 None, tsk ''X'' ''pending'' 0 None, tsk ''Y'' ''pending'' 1 None])
       = [(''Z'', 0), (''X'', 1), (''Y'', 2)]"
proof -
  have e: "reorderedColumnTasks lane ''pending'' ''Z'' ''X''
     = Some [tsk ''Z'' ''pending'' 0 None, tsk ''X'' ''pending'' 1 None, tsk ''Y'' ''pending'' 2 None]"
    by (simp add: drag_eval)
  note t = reorder_dense_orders [where desired = "[tsk ''Z'' ''pending'' 2 None, tsk ''X'' ''pending'' 0 None, tsk ''Y'' ''pending'' 1 None]"
      and originalTasks = lane and sourceStatus = "''pending''" and activeId = "''Z''" and overId = "''X''"
      and reordered = "[tsk ''Z'' ''pending'' 0 None, tsk ''X'' ''pending'' 1 None, tsk ''Y'' ''pending'' 2 None]"]
  from t e have o: "map order [tsk ''Z'' ''pending'' 0 None, tsk ''X'' ''pending'' 1 None, tsk ''Y'' ''pending'' 2 None]
       = map int [0..<3]" by (simp add: tsk_def upt_rec)
  have "map (\<lambda>t. (todo_id t, order t))
        (assignOrder [tsk ''Z'' ''pending'' 2 None, tsk ''X'' ''pending'' 0 None, tsk ''Y'' ''pending'' 1 None])
       = [(''Z'', 0), (''X'', 1), (''Y'', 2)]"
    by (simp add: assignOrder_def enumerate_eq_zip tsk_def upt_rec)
  with e o show ?thesis by blast
qed


section \<open>Rolling back a failed drag\<close>

lemma run_calls_fst: "fst (run_calls api rs) = list_all api (snd (run_calls api rs))"
  by (induction rs) (simp_all add: case_prod_beta)

lemma run_calls_snd: "fst (run_calls api rs) \<Longrightarrow> snd (run_calls api rs) = rs"
  by (induction rs) (simp_all add: case_prod_beta split: if_splits)

lemma run_calls_all: "run_calls (\<lambda>r. True) rs = (True, rs)"
  by (induction rs) simp_all

lemma settle:
  assumes "(case run_calls api rs of (ok, issued) \<Rightarrow> (if ok then applied else original, issued)) = (tasks', issued')"
  shows "((\<exists>r \<in> set issued'. \<not> api r) \<longrightarrow> tasks' = original)
     \<and> ((\<forall>r \<in> set issued'. api r) \<longrightarrow> tasks' = applied \<and> issued' = rs)"
proof -
  from assms have t: "tasks' = (if fst (run_calls api rs) then applied else original)"
    and i: "issued' = snd (run_calls api rs)"
    by (simp_all add: case_prod_beta)
  have ok: "fst (run_calls api rs) = (\<forall>r \<in> set issued'. api r)"
    unfolding i using run_calls_fst [of api rs] by (simp add: list_all_iff)
  show ?thesis
  proof (cases "fst (run_calls api rs)")
    case True
    from True ok have "\<forall>r \<in> set issued'. api r" by blast
    moreover from True t have "tasks' = applied" by simp
    moreover from run_calls_snd [OF True] i have "issued' = rs" by simp
    ultimately show ?thesis by blast
  next
    case False
    from False ok have "\<not> (\<forall>r \<in> set issued'. api r)" by blast
    moreover from False t have "tasks' = original" by simp
    ultimately show ?thesis by blast
  qed
qed

text \<open>
  C2. When a call to the server that a drag issued fails, the tasks the client shows are
  again the ones it showed before the drag; when every call succeeds they are the fully
  applied state, which is the state the handler reaches with a server that accepts every
  call. The state is never anything else.
\<close>

theorem drag_failure_reverts:
  assumes "handleDragEnd api tasks activeId over = (tasks', issued)"
  shows "((\<exists>r \<in> set issued. \<not> api r) \<longrightarrow> tasks' = tasks)
       \<and> ((\<forall>r \<in> set issued. api r) \<longrightarrow> tasks' = fst (handleDragEnd (\<lambda>r. True) tasks activeId over))
       \<and> (tasks' = tasks \<or> tasks' = fst (handleDragEnd (\<lambda>r. True) tasks activeId over))"
proof (cases "dragPlan tasks activeId over")
  case None
  then have "handleDragEnd api tasks activeId over = (tasks, [])"
    by (simp add: handleDragEnd_def)
  with assms have "tasks' = tasks" by simp
  moreover from None have "fst (handleDragEnd (\<lambda>r. True) tasks activeId over) = tasks"
    by (simp add: handleDragEnd_def)
  ultimately show ?thesis by simp
next
  case (Some pr)
  obtain applied rs where pr: "pr = (applied, rs)" by (cases pr)
  have full: "fst (handleDragEnd (\<lambda>r. True) tasks activeId over) = applied"
    unfolding handleDragEnd_def Let_def Some pr by (simp add: run_calls_all)
  have "handleDragEnd api tasks activeId over
     = (case run_calls api rs of (ok, issued) \<Rightarrow> (if ok then applied else tasks, issued))"
    unfolding handleDragEnd_def Let_def Some pr by simp
  with assms
  have "(case run_calls api rs of (ok, issued) \<Rightarrow> (if ok then applied else tasks, issued)) = (tasks', issued)"
    by simp
  from settle [OF this]
  have "((\<exists>r \<in> set issued. \<not> api r) \<longrightarrow> tasks' = tasks)
     \<and> ((\<forall>r \<in> set issued. api r) \<longrightarrow> tasks' = applied \<and> issued = rs)" .
  then show ?thesis unfolding full by blast
qed

theorem drag_failure_reverts_witness:
  "handleDragEnd putOnly lane ''X'' (Some ''done'')
     = (lane, [PUT_task ''X'' ''done'' 0, PATCH_reorder ''done'' [(''D'', 0), (''X'', 1)]])
   \<and> \<not> putOnly (PATCH_reorder ''done'' [(''D'', 0), (''X'', 1)])
   \<and> handleDragEnd (\<lambda>r. False) lane ''Z'' (Some ''X'')
     = (lane, [PATCH_reorder ''pending'' [(''Z'', 0), (''X'', 1), (''Y'', 2)]])
   \<and> handleDragEnd (\<lambda>r. True) lane ''X'' (Some ''done'')
     = ([tsk ''Y'' ''pending'' 0 None, tsk ''Z'' ''pending'' 1 None, tsk ''D'' ''done'' 0 None,
         tsk ''X'' ''done'' 1 None],
        [PUT_task ''X'' ''done'' 0, PATCH_reorder ''done'' [(''D'', 0), (''X'', 1)],
         PATCH_reorder ''pending'' [(''Y'', 0), (''Z'', 1)]])"
proof -
  have p1: "dragPlan lane ''X'' (Some ''done'')
     = Some ([tsk ''Y'' ''pending'' 0 None, tsk ''Z'' ''pending'' 1 None, tsk ''D'' ''done'' 0 None,
              tsk ''X'' ''done'' 1 None],
             [PUT_task ''X'' ''done'' 0, PATCH_reorder ''done'' [(''D'', 0), (''X'', 1)],
              PATCH_reorder ''pending'' [(''Y'', 0), (''Z'', 1)]])"
    by (simp add: plan_eval)
  have p2: "dragPlan lane ''Z'' (Some ''X'')
     = Some ([tsk ''D'' ''done'' 0 None, tsk ''Z'' ''pending'' 0 None, tsk ''X'' ''pending'' 1 None,
              tsk ''Y'' ''pending'' 2 None],
             [PATCH_reorder ''pending'' [(''Z'', 0), (''X'', 1), (''Y'', 2)]])"
    by (simp add: plan_eval)
  have e1: "handleDragEnd putOnly lane ''X'' (Some ''done'')
     = (lane, [PUT_task ''X'' ''done'' 0, PATCH_reorder ''done'' [(''D'', 0), (''X'', 1)]])"
    by (simp add: handleDragEnd_def p1 putOnly_def)
  have e2: "handleDragEnd (\<lambda>r. False) lane ''Z'' (Some ''X'')
     = (lane, [PATCH_reorder ''pending'' [(''Z'', 0), (''X'', 1), (''Y'', 2)]])"
    by (simp add: handleDragEnd_def p2)
  have e3: "handleDragEnd (\<lambda>r. True) lane ''X'' (Some ''done'')
     = ([tsk ''Y'' ''pending'' 0 None, tsk ''Z'' ''pending'' 1 None, tsk ''D'' ''done'' 0 None,
         tsk ''X'' ''done'' 1 None],
        [PUT_task ''X'' ''done'' 0, PATCH_reorder ''done'' [(''D'', 0), (''X'', 1)],
         PATCH_reorder ''pending'' [(''Y'', 0), (''Z'', 1)]])"
    by (simp add: handleDragEnd_def p1)
  have f: "\<not> putOnly (PATCH_reorder ''done'' [(''D'', 0), (''X'', 1)])"
    by (simp add: putOnly_def)
  from drag_failure_reverts [OF e1] f e1 e2 e3 show ?thesis by blast
qed


section \<open>The projection\<close>

lemma defaultStatus_enumerated: "defaultStatus \<in> set KANBAN_STATUSES"
  by (simp add: defaultStatus_def KANBAN_STATUSES_def)

lemma effective_enumerated: "effective t \<in> set KANBAN_STATUSES"
  by (simp add: effective_def defaultStatus_enumerated)

lemma Todo_not_enumerated: "''Todo'' \<notin> set KANBAN_STATUSES"
  by (simp add: KANBAN_STATUSES_def)

lemma groupTasks_result:
  "\<forall>s \<in> set KANBAN_STATUSES. grouped s \<noteq> None \<Longrightarrow>
   groupTasks ts (grouped, logged) =
     Some (\<lambda>s. map_option (\<lambda>column. column @ filter (\<lambda>t. isArchived t \<noteq> Some True \<and> effective t = s) ts) (grouped s),
           logged @ map warning (filter (\<lambda>t. status t \<notin> set KANBAN_STATUSES) ts))"
proof (induction ts arbitrary: grouped logged)
  case Nil
  show ?case by (simp add: option.map_ident)
next
  case (Cons t ts)
  let ?e = "effective t"
  let ?logged = "if status t \<notin> set KANBAN_STATUSES then logged @ [warning t] else logged"
  have remap: "(status t \<notin> set KANBAN_STATUSES \<or> status t = ''Todo'') = (status t \<notin> set KANBAN_STATUSES)"
    using Todo_not_enumerated by auto
  show ?case
  proof (cases "isArchived t \<noteq> Some True")
    case True
    from Cons.prems effective_enumerated [of t] obtain column where col: "grouped ?e = Some column"
      by blast
    let ?g = "grouped(?e \<mapsto> column @ [t])"
    have pre: "\<forall>s \<in> set KANBAN_STATUSES. ?g s \<noteq> None"
      using Cons.prems by simp
    have step: "groupTasks (t # ts) (grouped, logged) = groupTasks ts (?g, ?logged)"
      using True col Todo_not_enumerated by (auto simp: Let_def effective_def)
    have "(\<lambda>s. map_option (\<lambda>column. column @ filter (\<lambda>t. isArchived t \<noteq> Some True \<and> effective t = s) ts) (?g s))
        = (\<lambda>s. map_option (\<lambda>column. column @ filter (\<lambda>t. isArchived t \<noteq> Some True \<and> effective t = s) (t # ts)) (grouped s))"
      using True col by (auto simp: fun_eq_iff)
    moreover have "?logged @ map warning (filter (\<lambda>t. status t \<notin> set KANBAN_STATUSES) ts)
        = logged @ map warning (filter (\<lambda>t. status t \<notin> set KANBAN_STATUSES) (t # ts))"
      by simp
    ultimately show ?thesis
      unfolding step Cons.IH [OF pre] by simp
  next
    case False
    have step: "groupTasks (t # ts) (grouped, logged) = groupTasks ts (grouped, ?logged)"
      using False Todo_not_enumerated by (auto simp: Let_def)
    have "(\<lambda>s. map_option (\<lambda>column. column @ filter (\<lambda>t. isArchived t \<noteq> Some True \<and> effective t = s) ts) (grouped s))
        = (\<lambda>s. map_option (\<lambda>column. column @ filter (\<lambda>t. isArchived t \<noteq> Some True \<and> effective t = s) (t # ts)) (grouped s))"
      using False by simp
    moreover have "?logged @ map warning (filter (\<lambda>t. status t \<notin> set KANBAN_STATUSES) ts)
        = logged @ map warning (filter (\<lambda>t. status t \<notin> set KANBAN_STATUSES) (t # ts))"
      by simp
    ultimately show ?thesis
      unfolding step Cons.IH [OF Cons.prems] by simp
  qed
qed

lemma initial_grouped:
  "map_of (map (\<lambda>s. (s, [])) KANBAN_STATUSES) s = (if s \<in> set KANBAN_STATUSES then Some [] else None)"
  by (simp add: KANBAN_STATUSES_def)

lemma tasksByStatus_result:
  "tasksByStatus tasks =
     Some (\<lambda>s. if s \<in> set KANBAN_STATUSES
                then Some (sortByOrder (filter (\<lambda>t. isArchived t \<noteq> Some True \<and> effective t = s) tasks))
                else None,
           map warning (filter (\<lambda>t. status t \<notin> set KANBAN_STATUSES) tasks))"
proof -
  have pre: "\<forall>s \<in> set KANBAN_STATUSES. map_of (map (\<lambda>s. (s, [])) KANBAN_STATUSES) s \<noteq> None"
    by (simp add: initial_grouped)
  show ?thesis
    unfolding tasksByStatus_def groupTasks_result [OF pre]
    by (simp add: initial_grouped fun_eq_iff)
qed

text \<open>
  C9. The projection has one column for every enumerated lane and no other. A task that
  is not archived and whose status is not enumerated is put in the column of the first
  lane, and a warning for it is logged; a task that is not archived and whose status is
  enumerated is put in the column of its status. Every task that is not archived is in
  exactly one column.
\<close>

theorem projection_keeps_tasks:
  assumes "t \<in> set tasks" and "isArchived t \<noteq> Some True"
  shows "\<exists>grouped logged. tasksByStatus tasks = Some (grouped, logged)
     \<and> dom grouped = set KANBAN_STATUSES
     \<and> (status t \<notin> set KANBAN_STATUSES \<longrightarrow>
          (\<exists>column. grouped (KANBAN_STATUSES ! 0) = Some column \<and> t \<in> set column)
          \<and> warning t \<in> set logged)
     \<and> (status t \<in> set KANBAN_STATUSES \<longrightarrow>
          (\<exists>column. grouped (status t) = Some column \<and> t \<in> set column))
     \<and> (\<exists>!s. \<exists>column. grouped s = Some column \<and> t \<in> set column)"
proof -
  let ?g = "\<lambda>s. if s \<in> set KANBAN_STATUSES
                then Some (sortByOrder (filter (\<lambda>t. isArchived t \<noteq> Some True \<and> effective t = s) tasks))
                else None"
  let ?l = "map warning (filter (\<lambda>t. status t \<notin> set KANBAN_STATUSES) tasks)"
  have r: "tasksByStatus tasks = Some (?g, ?l)" by (rule tasksByStatus_result)
  have d: "dom ?g = set KANBAN_STATUSES" by (auto simp: dom_def)
  have mem: "\<And>s column. ?g s = Some column \<Longrightarrow> (t \<in> set column) = (effective t = s)"
    using assms by (auto simp: sortByOrder_def split: if_splits)
  have col: "\<exists>column. ?g (effective t) = Some column \<and> t \<in> set column"
    using assms effective_enumerated [of t] by (simp add: sortByOrder_def)
  have inv: "status t \<notin> set KANBAN_STATUSES \<longrightarrow>
          (\<exists>column. ?g (KANBAN_STATUSES ! 0) = Some column \<and> t \<in> set column) \<and> warning t \<in> set ?l"
  proof
    assume n: "status t \<notin> set KANBAN_STATUSES"
    then have eq: "effective t = KANBAN_STATUSES ! 0" by (simp add: effective_def defaultStatus_def)
    from col obtain column where c: "?g (effective t) = Some column" "t \<in> set column" by blast
    from c(1) have "?g (KANBAN_STATUSES ! 0) = Some column" unfolding eq .
    with c(2) have "\<exists>column. ?g (KANBAN_STATUSES ! 0) = Some column \<and> t \<in> set column" by blast
    moreover from n assms have "warning t \<in> set ?l" by simp
    ultimately show "(\<exists>column. ?g (KANBAN_STATUSES ! 0) = Some column \<and> t \<in> set column) \<and> warning t \<in> set ?l"
      by blast
  qed
  have val: "status t \<in> set KANBAN_STATUSES \<longrightarrow> (\<exists>column. ?g (status t) = Some column \<and> t \<in> set column)"
  proof
    assume v: "status t \<in> set KANBAN_STATUSES"
    then have eq: "effective t = status t" using Todo_not_enumerated by (auto simp: effective_def)
    from col obtain column where c: "?g (effective t) = Some column" "t \<in> set column" by blast
    from c(1) have "?g (status t) = Some column" unfolding eq .
    with c(2) show "\<exists>column. ?g (status t) = Some column \<and> t \<in> set column" by blast
  qed
  have uniq: "\<exists>!s. \<exists>column. ?g s = Some column \<and> t \<in> set column"
  proof (rule ex1I [of _ "effective t"])
    show "\<exists>column. ?g (effective t) = Some column \<and> t \<in> set column" by (rule col)
  next
    fix s assume "\<exists>column. ?g s = Some column \<and> t \<in> set column"
    then obtain column where "?g s = Some column" "t \<in> set column" by blast
    with mem [of s column] show "s = effective t" by simp
  qed
  from r d inv val uniq show ?thesis by blast
qed

theorem projection_keeps_tasks_witness:
  "tsk ''T'' ''Todo'' 0 None \<in> set drifted \<and> isArchived (tsk ''T'' ''Todo'' 0 None) \<noteq> Some True
   \<and> status (tsk ''T'' ''Todo'' 0 None) \<notin> set KANBAN_STATUSES
   \<and> (\<exists>grouped logged. tasksByStatus drifted = Some (grouped, logged)
        \<and> grouped ''pending'' = Some [tsk ''T'' ''Todo'' 0 None, tsk ''X'' ''pending'' 1 None]
        \<and> grouped ''done'' = Some [tsk ''D'' ''done'' 0 (Some False)]
        \<and> warning (tsk ''T'' ''Todo'' 0 None) \<in> set logged)"
proof -
  have h: "tsk ''T'' ''Todo'' 0 None \<in> set drifted" "isArchived (tsk ''T'' ''Todo'' 0 None) \<noteq> Some True"
    "status (tsk ''T'' ''Todo'' 0 None) \<notin> set KANBAN_STATUSES"
    by (simp_all add: drifted_def tsk_def KANBAN_STATUSES_def)
  have e: "tasksByStatus drifted
     = Some ((map_of (map (\<lambda>s. (s, [])) KANBAN_STATUSES))
               (''pending'' \<mapsto> [tsk ''T'' ''Todo'' 0 None, tsk ''X'' ''pending'' 1 None],
                ''done'' \<mapsto> [tsk ''D'' ''done'' 0 (Some False)]),
             [warning (tsk ''T'' ''Todo'' 0 None)])"
    by (simp add: tasksByStatus_def drifted_def tsk_def KANBAN_STATUSES_def defaultStatus_def Let_def
          sortByOrder_def fun_eq_iff)
  from projection_keeps_tasks [OF h(1) h(2)] h(3) e
  have "warning (tsk ''T'' ''Todo'' 0 None) \<in> set [warning (tsk ''T'' ''Todo'' 0 None)]" by auto
  with h e show ?thesis by simp
qed

end
